theory Spec2Isabelle
  imports Complex_Main "HOL-Library.Multiset"
begin

section \<open>The dial-value pipeline of the sqlite package and the HTTP error codes\<close>

text \<open>
  A shallow embedding of \<^verbatim>\<open>refreshDialValue\<close>, \<^verbatim>\<open>insertDialValue\<close> and
  \<^verbatim>\<open>publishDialEvent\<close> (package sqlite) and of \<^verbatim>\<open>ErrorStatusCode\<close> and
  \<^verbatim>\<open>FromErrorStatusCode\<close> (package http).

  The Go functions run SQL statements against a transaction. The model keeps the three
  tables the statements touch as lists of rows, gives every statement the meaning SQLite
  documents for it, and lets every call into \<^verbatim>\<open>database/sql\<close> fail: a transaction
  carries a fault plan that says, for each call site, whether the driver returns an error
  there.
\<close>

subsection \<open>Rows, tables and the transaction\<close>

text \<open>
  A \<^verbatim>\<open>time.Time\<close> is the number of nanoseconds since Go's zero time. Go's \<^verbatim>\<open>int\<close>
  and the INTEGER columns are unbounded integers here: the pipeline does no arithmetic
  on them in Go, and the rounded mean of 64-bit values is a 64-bit value.
\<close>

type_synonym time = int

text \<open>The columns of \<^verbatim>\<open>dials\<close>, as \<^verbatim>\<open>findDials\<close> selects them.\<close>

record Dial =
  dial_ID :: int
  dial_UserID :: int
  dial_Name :: string
  dial_Value :: int
  dial_InviteCode :: string
  dial_CreatedAt :: time
  dial_UpdatedAt :: time

text \<open>The columns of \<^verbatim>\<open>dial_memberships\<close> that the statements of the pipeline name.\<close>

record DialMembership =
  dm_dial_id :: int
  dm_user_id :: int
  dm_value :: int

text \<open>The columns of \<^verbatim>\<open>dial_values\<close>.\<close>

record DialValue =
  dv_dial_id :: int
  dv_timestamp :: time
  dv_value :: int

record Tables =
  dials :: "Dial list"
  dial_memberships :: "DialMembership list"
  dial_values :: "DialValue list"

text \<open>
  \<^verbatim>\<open>wtf.Event\<close> with its payload; the pipeline builds one kind of event.
\<close>

datatype EventType = EventTypeDialValueChanged

datatype Payload = DialValueChangedPayload (payload_ID: int) (payload_Value: int)

record Event =
  event_Type :: EventType
  event_Payload :: Payload

text \<open>
  Go's \<^verbatim>\<open>error\<close> values that the pipeline sees or builds: \<^verbatim>\<open>sql.ErrNoRows\<close>,
  an error of the driver (with its message), and \<^verbatim>\<open>fmt.Errorf("...: %w", err)\<close>.
  A Go \<^verbatim>\<open>error\<close> result is an \<open>error option\<close>, \<open>None\<close> for \<^verbatim>\<open>nil\<close>.
\<close>

datatype error = ErrNoRows | DriverError string | Errorf string error

text \<open>
  The call sites of \<^verbatim>\<open>database/sql\<close> in the pipeline, in source order:
  the two \<^verbatim>\<open>QueryRowContext(...).Scan\<close> of \<^verbatim>\<open>refreshDialValue\<close>, its
  \<^verbatim>\<open>ExecContext\<close>, the \<^verbatim>\<open>ExecContext\<close> of \<^verbatim>\<open>insertDialValue\<close>, and in
  \<^verbatim>\<open>publishDialEvent\<close> the \<^verbatim>\<open>QueryContext\<close>, and the \<^verbatim>\<open>rows.Next\<close> and
  \<^verbatim>\<open>rows.Scan\<close> of the \<open>i\<close>-th turn of the loop.
\<close>

datatype site =
    SelectDialValue
  | SelectAverage
  | UpdateDial
  | InsertDialValue
  | SelectMembers
  | RowsNext nat
  | RowsScan nat

text \<open>
  The transaction \<^verbatim>\<open>*Tx\<close>: the tables as the transaction sees them, \<^verbatim>\<open>tx.now\<close>,
  the calls made so far to \<^verbatim>\<open>tx.db.EventService.PublishEvent\<close> (user, event), and the
  fault plan (the driver's error message at a call site, \<open>None\<close> where the call works).
\<close>

record Tx =
  tx_tables :: Tables
  tx_now :: time
  tx_published :: "(int \<times> Event) list"
  tx_fault :: "site \<Rightarrow> string option"

subsection \<open>The SQL functions of the aggregate query\<close>

text \<open>
  \<^verbatim>\<open>CAST(ROUND(IFNULL(AVG(value), 0)) AS INTEGER)\<close>. SQLite computes \<^verbatim>\<open>AVG\<close> and
  \<^verbatim>\<open>ROUND\<close> on IEEE doubles; the model computes on rationals, which is what the
  doubles approximate. \<^verbatim>\<open>AVG\<close> of no rows is NULL (\<open>None\<close>); \<^verbatim>\<open>ROUND(X)\<close> adds
  0.5 to a non-negative \<open>X\<close>, subtracts 0.5 from a negative one, and drops the fraction
  (SQLite's \<^verbatim>\<open>roundFunc\<close>); a \<^verbatim>\<open>CAST\<close> to INTEGER drops the fraction.
\<close>

definition truncate_rat :: "rat \<Rightarrow> int" where
  "truncate_rat r = (if r < 0 then \<lceil>r\<rceil> else \<lfloor>r\<rfloor>)"

definition sql_avg :: "int list \<Rightarrow> rat option" where
  "sql_avg vs = (if vs = [] then None else Some (of_int (sum_list vs) / of_int (int (length vs))))"

definition sql_ifnull :: "rat option \<Rightarrow> rat \<Rightarrow> rat" where
  "sql_ifnull x d = (case x of None \<Rightarrow> d | Some r \<Rightarrow> r)"

definition sql_round :: "rat \<Rightarrow> rat" where
  "sql_round r = of_int (truncate_rat (r + (if r < 0 then - (1 / 2) else 1 / 2)))"

definition sql_cast_integer :: "rat \<Rightarrow> int" where
  "sql_cast_integer r = truncate_rat r"

text \<open>The values of the memberships of a dial: the rows the aggregate ranges over.\<close>

definition member_values :: "Tables \<Rightarrow> int \<Rightarrow> int list" where
  "member_values t did = map dm_value (filter (\<lambda>m. dm_dial_id m = did) (dial_memberships t))"

definition average_value :: "Tables \<Rightarrow> int \<Rightarrow> int" where
  "average_value t did =
     sql_cast_integer (sql_round (sql_ifnull (sql_avg (member_values t did)) 0))"

subsection \<open>The statements\<close>

text \<open>
  \<^verbatim>\<open>SELECT value FROM dials WHERE id = ?\<close> read by \<^verbatim>\<open>QueryRowContext(...).Scan\<close>:
  the driver's error, \<^verbatim>\<open>sql.ErrNoRows\<close> when no row matches, the value of the first
  matching row otherwise.
\<close>

definition selectDialValue :: "Tx \<Rightarrow> int \<Rightarrow> error + int" where
  "selectDialValue tx did =
     (case tx_fault tx SelectDialValue of
        Some msg \<Rightarrow> Inl (DriverError msg)
      | None \<Rightarrow>
          (case filter (\<lambda>d. dial_ID d = did) (dials (tx_tables tx)) of
             [] \<Rightarrow> Inl ErrNoRows
           | d # _ \<Rightarrow> Inr (dial_Value d)))"

text \<open>
  The aggregate query. An aggregate without \<^verbatim>\<open>GROUP BY\<close> has exactly one result row,
  so the only error is the driver's.
\<close>

definition selectAverage :: "Tx \<Rightarrow> int \<Rightarrow> error + int" where
  "selectAverage tx did =
     (case tx_fault tx SelectAverage of
        Some msg \<Rightarrow> Inl (DriverError msg)
      | None \<Rightarrow> Inr (average_value (tx_tables tx) did))"

text \<open>
  \<^verbatim>\<open>UPDATE dials SET value = ?, updated_at = ? WHERE id = ?\<close>. A statement that
  fails changes nothing.
\<close>

definition updateDial :: "Tx \<Rightarrow> int \<Rightarrow> time \<Rightarrow> int \<Rightarrow> error + Tx" where
  "updateDial tx newValue now did =
     (case tx_fault tx UpdateDial of
        Some msg \<Rightarrow> Inl (DriverError msg)
      | None \<Rightarrow>
          Inr (tx\<lparr>tx_tables := (tx_tables tx)\<lparr>dials :=
                 map (\<lambda>d. if dial_ID d = did
                          then d\<lparr>dial_Value := newValue, dial_UpdatedAt := now\<rparr> else d)
                     (dials (tx_tables tx))\<rparr>\<rparr>))"

text \<open>
  \<^verbatim>\<open>INSERT INTO dial_values ... ON CONFLICT (dial_id, "timestamp") DO UPDATE SET value = ?\<close>
  on the rows of \<^verbatim>\<open>dial_values\<close>: a row with the same dial and timestamp takes the
  new value; with no such row, a new row is added.
\<close>

definition upsert_dial_value :: "DialValue list \<Rightarrow> int \<Rightarrow> time \<Rightarrow> int \<Rightarrow> DialValue list" where
  "upsert_dial_value rows did ts v =
     (if \<exists>r \<in> set rows. dv_dial_id r = did \<and> dv_timestamp r = ts
      then map (\<lambda>r. if dv_dial_id r = did \<and> dv_timestamp r = ts then r\<lparr>dv_value := v\<rparr> else r) rows
      else rows @ [\<lparr>dv_dial_id = did, dv_timestamp = ts, dv_value = v\<rparr>])"

text \<open>
  \<^verbatim>\<open>t.Truncate(d)\<close> of package time: \<open>t\<close> rounded down to a multiple of \<open>d\<close> since
  the zero time, and \<open>t\<close> itself when \<open>d \<le> 0\<close>. \<^verbatim>\<open>time.Minute\<close> in nanoseconds.
\<close>

definition Truncate :: "time \<Rightarrow> int \<Rightarrow> time" where
  "Truncate t d = (if d \<le> 0 then t else t - t mod d)"

definition Minute :: int where
  "Minute = 60 * 1000000000"

subsection \<open>insertDialValue, publishDialEvent, refreshDialValue\<close>

text \<open>
  \<^verbatim>\<open>FormatError\<close> is a function of package sqlite that is not among the sources; the
  three functions take it as their first argument.
\<close>

definition insertDialValue :: "(error \<Rightarrow> error) \<Rightarrow> Tx \<Rightarrow> int \<Rightarrow> int \<Rightarrow> time \<Rightarrow> error option \<times> Tx" where
  "insertDialValue FormatError tx did v timestamp =
     (let timestamp' = Truncate timestamp (1 * Minute) in
      case tx_fault tx InsertDialValue of
        Some msg \<Rightarrow> (Some (FormatError (DriverError msg)), tx)
      | None \<Rightarrow>
          (None, tx\<lparr>tx_tables := (tx_tables tx)\<lparr>dial_values :=
                   upsert_dial_value (dial_values (tx_tables tx)) did timestamp' v\<rparr>\<rparr>))"

text \<open>\<^verbatim>\<open>tx.db.EventService.PublishEvent(userID, event)\<close>: a call with no result.\<close>

definition PublishEvent :: "Tx \<Rightarrow> int \<Rightarrow> Event \<Rightarrow> Tx" where
  "PublishEvent tx userID event = tx\<lparr>tx_published := tx_published tx @ [(userID, event)]\<rparr>"

text \<open>
  The loop over the cursor, at its \<open>i\<close>-th turn with the user ids still to come.
  \<^verbatim>\<open>rows.Next()\<close> is false at the end of the rows and when the driver fails, and then
  \<^verbatim>\<open>rows.Err()\<close> is the driver's error; a failing \<^verbatim>\<open>rows.Scan\<close> returns at once.
\<close>

fun publish_rows :: "Tx \<Rightarrow> Event \<Rightarrow> nat \<Rightarrow> int list \<Rightarrow> error option \<times> Tx" where
  "publish_rows tx event i [] =
     (case tx_fault tx (RowsNext i) of
        Some msg \<Rightarrow> (Some (DriverError msg), tx)
      | None \<Rightarrow> (None, tx))"
| "publish_rows tx event i (userID # rest) =
     (case tx_fault tx (RowsNext i) of
        Some msg \<Rightarrow> (Some (DriverError msg), tx)
      | None \<Rightarrow>
          (case tx_fault tx (RowsScan i) of
             Some msg \<Rightarrow> (Some (DriverError msg), tx)
           | None \<Rightarrow> publish_rows (PublishEvent tx userID event) event (Suc i) rest))"

text \<open>\<^verbatim>\<open>SELECT user_id FROM dial_memberships WHERE dial_id = ?\<close>\<close>

definition member_user_ids :: "Tables \<Rightarrow> int \<Rightarrow> int list" where
  "member_user_ids t did = map dm_user_id (filter (\<lambda>m. dm_dial_id m = did) (dial_memberships t))"

definition publishDialEvent :: "(error \<Rightarrow> error) \<Rightarrow> Tx \<Rightarrow> int \<Rightarrow> Event \<Rightarrow> error option \<times> Tx" where
  "publishDialEvent FormatError tx did event =
     (case tx_fault tx SelectMembers of
        Some msg \<Rightarrow> (Some (FormatError (DriverError msg)), tx)
      | None \<Rightarrow> publish_rows tx event 0 (member_user_ids (tx_tables tx) did))"

text \<open>
  \<^verbatim>\<open>refreshDialValue\<close> after both values are read: the exit when nothing changes, the
  update, the history row, the event.
\<close>

definition refresh_changed :: "(error \<Rightarrow> error) \<Rightarrow> Tx \<Rightarrow> int \<Rightarrow> int \<Rightarrow> int \<Rightarrow> error option \<times> Tx" where
  "refresh_changed FormatError tx did oldValue newValue =
     (if oldValue = newValue then (None, tx)
      else
        case updateDial tx newValue (tx_now tx) did of
          Inl err \<Rightarrow> (Some (FormatError err), tx)
        | Inr tx1 \<Rightarrow>
            (case insertDialValue FormatError tx1 did newValue (tx_now tx1) of
               (Some err, tx2) \<Rightarrow> (Some (Errorf ''insert historical value'' err), tx2)
             | (None, tx2) \<Rightarrow>
                 (case publishDialEvent FormatError tx2 did
                         \<lparr>event_Type = EventTypeDialValueChanged,
                          event_Payload = DialValueChangedPayload did newValue\<rparr> of
                    (Some err, tx3) \<Rightarrow> (Some (Errorf ''publish dial event'' err), tx3)
                  | (None, tx3) \<Rightarrow> (None, tx3))))"

text \<open>
  \<^verbatim>\<open>refreshDialValue\<close>. \<^verbatim>\<open>sql.ErrNoRows\<close> from the first query returns \<^verbatim>\<open>nil\<close>;
  from the second it leaves \<^verbatim>\<open>newValue\<close> at Go's zero value.
\<close>

definition refreshDialValue :: "(error \<Rightarrow> error) \<Rightarrow> Tx \<Rightarrow> int \<Rightarrow> error option \<times> Tx" where
  "refreshDialValue FormatError tx did =
     (case selectDialValue tx did of
        Inl err \<Rightarrow> if err = ErrNoRows then (None, tx) else (Some (FormatError err), tx)
      | Inr oldValue \<Rightarrow>
          (case selectAverage tx did of
             Inl err \<Rightarrow>
               if err \<noteq> ErrNoRows then (Some (FormatError err), tx)
               else refresh_changed FormatError tx did oldValue 0
           | Inr newValue \<Rightarrow> refresh_changed FormatError tx did oldValue newValue))"

subsection \<open>The transaction around the recompute\<close>

text \<open>
  Modelled from the spec: the transactional scope in which the recompute runs
  (\<^verbatim>\<open>recomputeDialValue\<close> of the exposed interface). The service methods that open the
  transaction and the \<^verbatim>\<open>Commit\<close> and \<^verbatim>\<open>Rollback\<close> of \<^verbatim>\<open>Tx\<close> are in files of the
  repository that are not among the sources. The spec has the caller acquire the
  transaction and release it on every exit path: the transaction commits when the sequence
  succeeds, and the whole sequence rolls back together when it fails. The result is the
  error, the committed tables, and the calls made to the event publisher, which no
  rollback takes back.
\<close>

definition recomputeDialValue ::
  "(error \<Rightarrow> error) \<Rightarrow> Tx \<Rightarrow> int \<Rightarrow> error option \<times> Tables \<times> (int \<times> Event) list" where
  "recomputeDialValue FormatError tx did =
     (case refreshDialValue FormatError tx did of
        (Some err, tx') \<Rightarrow> (Some err, tx_tables tx, tx_published tx')
      | (None, tx') \<Rightarrow> (None, tx_tables tx', tx_published tx'))"

subsection \<open>The mean and its rounding, in the words of the specification\<close>


text \<open>
  \<open>n\<close> is \<open>q\<close> rounded to the nearest integer, a tie going away from zero.
\<close>

definition nearest_ties_away :: "rat \<Rightarrow> int \<Rightarrow> bool" where
  "nearest_ties_away q n \<longleftrightarrow>
     \<bar>of_int n - q\<bar> < 1 / 2 \<or> (\<bar>of_int n - q\<bar> = 1 / 2 \<and> \<bar>q\<bar> < \<bar>of_int n\<bar>)"

text \<open>The history invariant: at most one row of \<^verbatim>\<open>dial_values\<close> per dial and timestamp.\<close>

definition one_sample_per_bucket :: "DialValue list \<Rightarrow> bool" where
  "one_sample_per_bucket rows \<longleftrightarrow> distinct (map (\<lambda>r. (dv_dial_id r, dv_timestamp r)) rows)"

definition samples_at :: "DialValue list \<Rightarrow> int \<Rightarrow> time \<Rightarrow> DialValue list" where
  "samples_at rows did ts = filter (\<lambda>r. dv_dial_id r = did \<and> dv_timestamp r = ts) rows"

subsection \<open>Error codes and HTTP status codes\<close>

text \<open>
  The error codes of package wtf are string constants whose values are not among the
  sources: they are the fields of a record that the functions take as an argument. The
  status codes are those of \<^verbatim>\<open>net/http\<close>.
\<close>

record wtf_codes =
  ECONFLICT :: string
  EINTERNAL :: string
  EINVALID :: string
  ENOTFOUND :: string
  ENOTIMPLEMENTED :: string
  EUNAUTHORIZED :: string

definition StatusBadRequest :: int where "StatusBadRequest = 400"
definition StatusUnauthorized :: int where "StatusUnauthorized = 401"
definition StatusNotFound :: int where "StatusNotFound = 404"
definition StatusConflict :: int where "StatusConflict = 409"
definition StatusInternalServerError :: int where "StatusInternalServerError = 500"
definition StatusNotImplemented :: int where "StatusNotImplemented = 501"

text \<open>The map literal \<^verbatim>\<open>codes\<close>, entry by entry.\<close>

definition codes :: "wtf_codes \<Rightarrow> (string \<times> int) list" where
  "codes w =
     [(ECONFLICT w, StatusConflict),
      (EINVALID w, StatusBadRequest),
      (ENOTFOUND w, StatusNotFound),
      (ENOTIMPLEMENTED w, StatusNotImplemented),
      (EUNAUTHORIZED w, StatusUnauthorized),
      (EINTERNAL w, StatusInternalServerError)]"

definition ErrorStatusCode :: "wtf_codes \<Rightarrow> string \<Rightarrow> int" where
  "ErrorStatusCode w code =
     (case map_of (codes w) code of Some v \<Rightarrow> v | None \<Rightarrow> StatusInternalServerError)"

text \<open>
  \<^verbatim>\<open>for k, v := range codes\<close> visits the entries in an order Go does not fix. The
  function takes the order of the visit as an argument; \<open>range_order\<close> says that a list
  is such an order: the entries of the map, each once.
\<close>

definition range_order :: "wtf_codes \<Rightarrow> (string \<times> int) list \<Rightarrow> bool" where
  "range_order w entries \<longleftrightarrow> mset entries = mset (codes w)"

fun first_key_of :: "(string \<times> int) list \<Rightarrow> int \<Rightarrow> string option" where
  "first_key_of [] code = None"
| "first_key_of ((k, v) # rest) code = (if v = code then Some k else first_key_of rest code)"

definition FromErrorStatusCode :: "wtf_codes \<Rightarrow> (string \<times> int) list \<Rightarrow> int \<Rightarrow> string" where
  "FromErrorStatusCode w entries code =
     (case first_key_of entries code of Some k \<Rightarrow> k | None \<Rightarrow> EINTERNAL w)"

subsection \<open>Names for the statements about the pipeline\<close>

text \<open>The event \<^verbatim>\<open>refreshDialValue\<close> publishes for a dial and its new value.\<close>

definition value_changed :: "int \<Rightarrow> int \<Rightarrow> Event" where
  "value_changed did newValue =
     \<lparr>event_Type = EventTypeDialValueChanged, event_Payload = DialValueChangedPayload did newValue\<rparr>"

text \<open>The tables after the \<^verbatim>\<open>UPDATE\<close> of a recompute, before its history row is written.\<close>

definition updated :: "Tables \<Rightarrow> int \<Rightarrow> int \<Rightarrow> time \<Rightarrow> Tables" where
  "updated t did newValue now =
     t\<lparr>dials := map (\<lambda>d. if dial_ID d = did
                          then d\<lparr>dial_Value := newValue, dial_UpdatedAt := now\<rparr> else d) (dials t)\<rparr>"

text \<open>The tables after the \<^verbatim>\<open>UPDATE\<close> and the history row of a recompute.\<close>

definition persisted :: "Tables \<Rightarrow> int \<Rightarrow> int \<Rightarrow> time \<Rightarrow> Tables" where
  "persisted t did newValue now =
     t\<lparr>dials := map (\<lambda>d. if dial_ID d = did
                          then d\<lparr>dial_Value := newValue, dial_UpdatedAt := now\<rparr> else d) (dials t),
       dial_values := upsert_dial_value (dial_values t) did (Truncate now Minute) newValue\<rparr>"

text \<open>
  The cursor over \<open>n\<close> member rows works from turn \<open>i\<close> on: no \<^verbatim>\<open>rows.Next\<close> fails,
  the one that ends the loop included, and no \<^verbatim>\<open>rows.Scan\<close> fails.
\<close>

definition rows_ok :: "Tx \<Rightarrow> nat \<Rightarrow> nat \<Rightarrow> bool" where
  "rows_ok tx i n \<longleftrightarrow>
     (\<forall>j \<le> n. tx_fault tx (RowsNext (i + j)) = None) \<and> (\<forall>j < n. tx_fault tx (RowsScan (i + j)) = None)"

text \<open>
  The stored value of the dial, when the dial has a row, is the aggregate of its
  memberships.
\<close>

definition dial_settled :: "Tables \<Rightarrow> int \<Rightarrow> bool" where
  "dial_settled t did =
     (case filter (\<lambda>d. dial_ID d = did) (dials t) of
        [] \<Rightarrow> True
      | d # _ \<Rightarrow> dial_Value d = average_value t did)"

text \<open>
  Two states of the tables that differ at most in the rows of one dial and in the history
  rows of that dial: the memberships are the same, and so are the rows of the other dials
  and their history.
\<close>

definition same_outside :: "int \<Rightarrow> Tables \<Rightarrow> Tables \<Rightarrow> bool" where
  "same_outside did t t' \<longleftrightarrow>
     dial_memberships t' = dial_memberships t \<and>
     filter (\<lambda>d. dial_ID d \<noteq> did) (dials t') = filter (\<lambda>d. dial_ID d \<noteq> did) (dials t) \<and>
     filter (\<lambda>r. dv_dial_id r \<noteq> did) (dial_values t') = filter (\<lambda>r. dv_dial_id r \<noteq> did) (dial_values t)"

subsection \<open>A transaction and error codes to run the functions on\<close>

text \<open>
  Three dials: dial 1 with stored value 0 and members holding 1 and 2, dial 2 with no
  member, dial 3 with stored value 20 and members holding 10, 20 and 30. The transaction
  starts 90 seconds after the zero time and its driver never fails.
\<close>

definition example_tables :: Tables where
  "example_tables =
     \<lparr>dials =
        [\<lparr>dial_ID = 1, dial_UserID = 1, dial_Name = ''one'', dial_Value = 0,
          dial_InviteCode = ''a'', dial_CreatedAt = 0, dial_UpdatedAt = 0\<rparr>,
         \<lparr>dial_ID = 2, dial_UserID = 1, dial_Name = ''two'', dial_Value = 0,
          dial_InviteCode = ''b'', dial_CreatedAt = 0, dial_UpdatedAt = 0\<rparr>,
         \<lparr>dial_ID = 3, dial_UserID = 2, dial_Name = ''three'', dial_Value = 20,
          dial_InviteCode = ''c'', dial_CreatedAt = 0, dial_UpdatedAt = 0\<rparr>],
      dial_memberships =
        [\<lparr>dm_dial_id = 1, dm_user_id = 1, dm_value = 1\<rparr>,
         \<lparr>dm_dial_id = 1, dm_user_id = 2, dm_value = 2\<rparr>,
         \<lparr>dm_dial_id = 3, dm_user_id = 1, dm_value = 10\<rparr>,
         \<lparr>dm_dial_id = 3, dm_user_id = 2, dm_value = 20\<rparr>,
         \<lparr>dm_dial_id = 3, dm_user_id = 3, dm_value = 30\<rparr>],
      dial_values = []\<rparr>"

definition example_tx :: Tx where
  "example_tx =
     \<lparr>tx_tables = example_tables, tx_now = 90000000000, tx_published = [],
      tx_fault = (\<lambda>s. None)\<rparr>"

text \<open>The same transaction with a driver that fails at one call site.\<close>

definition failing_tx :: "site \<Rightarrow> string \<Rightarrow> Tx" where
  "failing_tx s msg = example_tx\<lparr>tx_fault := (\<lambda>s'. if s' = s then Some msg else None)\<rparr>"

text \<open>A \<^verbatim>\<open>FormatError\<close> that returns the error it is given.\<close>

definition plain_FormatError :: "error \<Rightarrow> error" where
  "plain_FormatError err = err"

text \<open>Six error codes, pairwise different.\<close>

definition sample_codes :: wtf_codes where
  "sample_codes =
     \<lparr>ECONFLICT = ''conflict'', EINTERNAL = ''internal'', EINVALID = ''invalid'',
      ENOTFOUND = ''not_found'', ENOTIMPLEMENTED = ''not_implemented'',
      EUNAUTHORIZED = ''unauthorized''\<rparr>"

section \<open>Lemmas\<close>

subsection \<open>The rounding of the aggregate query\<close>



lemma nearest_ties_away_less:
  assumes n: "nearest_ties_away q n" and m: "nearest_ties_away q m" and less: "n < m"
  shows False
proof -
  have 1: "(of_int n :: rat) + 1 \<le> of_int m"
    using less by (metis of_int_1 of_int_add of_int_le_iff zless_imp_add1_zle)
  have 2: "(0::rat) \<le> of_int n \<or> (of_int n :: rat) + 1 \<le> 0"
  proof (cases "0 \<le> n")
    case True then show ?thesis by simp
  next
    case False
    then have "n + 1 \<le> 0" by simp
    then have "(of_int (n + 1) :: rat) \<le> 0" by (simp only: of_int_le_0_iff)
    then show ?thesis by simp
  qed
  have 3: "\<bar>of_int n - q\<bar> \<le> 1 / 2" "\<bar>of_int m - q\<bar> \<le> 1 / 2"
    using n m unfolding nearest_ties_away_def by auto
  have q: "q = of_int n + 1 / 2" and mn: "(of_int m :: rat) = of_int n + 1"
    using 1 3 by linarith+
  have "\<bar>q\<bar> < \<bar>of_int n\<bar>" "\<bar>q\<bar> < \<bar>of_int m\<bar>"
    using n m q mn unfolding nearest_ties_away_def by auto
  then show False
    using 2 q mn by linarith
qed

lemma nearest_ties_away_unique:
  assumes "nearest_ties_away q n" and "nearest_ties_away q m"
  shows "n = m"
  using assms nearest_ties_away_less [of q n m] nearest_ties_away_less [of q m n]
  by (cases n m rule: linorder_cases) auto




subsection \<open>The table of codes\<close>

lemma first_key_of_unique:
  "distinct (map snd es) \<Longrightarrow> (k, v) \<in> set es \<Longrightarrow> first_key_of es v = Some k"
  by (induction es v rule: first_key_of.induct) (auto simp: rev_image_eqI)

lemma first_key_of_absent:
  "v \<notin> snd ` set es \<Longrightarrow> first_key_of es v = None"
  by (induction es v rule: first_key_of.induct) auto

lemma codes_values_distinct: "distinct (map snd (codes w))"
  by (simp add: codes_def StatusBadRequest_def StatusUnauthorized_def StatusNotFound_def
      StatusConflict_def StatusInternalServerError_def StatusNotImplemented_def)

lemma range_order_set: "range_order w es \<Longrightarrow> set es = set (codes w)"
  unfolding range_order_def by (rule mset_eq_setD)

lemma range_order_distinct: "range_order w es \<Longrightarrow> distinct (map snd es)"
proof -
  assume "range_order w es"
  then have "mset (map snd es) = mset (map snd (codes w))"
    unfolding range_order_def by (metis mset_map)
  then show ?thesis
    using codes_values_distinct mset_eq_imp_distinct_iff by blast
qed

subsection \<open>The loop of publishDialEvent\<close>

lemma PublishEvent_fields [simp]:
  "tx_tables (PublishEvent tx u e) = tx_tables tx"
  "tx_now (PublishEvent tx u e) = tx_now tx"
  "tx_fault (PublishEvent tx u e) = tx_fault tx"
  "tx_published (PublishEvent tx u e) = tx_published tx @ [(u, e)]"
  by (simp_all add: PublishEvent_def)

lemma publish_rows_prefix:
  "\<exists>k \<le> length us. snd (publish_rows tx ev i us) =
       tx\<lparr>tx_published := tx_published tx @ map (\<lambda>u. (u, ev)) (take k us)\<rparr>"
proof (induction us arbitrary: tx i)
  case Nil
  then show ?case by (simp split: option.splits)
next
  case (Cons u us)
  show ?case
  proof (cases "tx_fault tx (RowsNext i) = None \<and> tx_fault tx (RowsScan i) = None")
    case False
    then have "snd (publish_rows tx ev i (u # us)) = tx"
      by (auto split: option.splits)
    then have "snd (publish_rows tx ev i (u # us)) =
        tx\<lparr>tx_published := tx_published tx @ map (\<lambda>u. (u, ev)) (take 0 (u # us))\<rparr>"
      by simp
    then show ?thesis by blast
  next
    case True
    from Cons.IH [of "PublishEvent tx u ev" "Suc i"]
    obtain k where k: "k \<le> length us"
      "snd (publish_rows (PublishEvent tx u ev) ev (Suc i) us) =
         (PublishEvent tx u ev)\<lparr>tx_published :=
            tx_published (PublishEvent tx u ev) @ map (\<lambda>u. (u, ev)) (take k us)\<rparr>"
      by blast
    have "snd (publish_rows tx ev i (u # us)) =
        tx\<lparr>tx_published := tx_published tx @ map (\<lambda>u. (u, ev)) (take (Suc k) (u # us))\<rparr>"
      using True k(2) by (simp add: PublishEvent_def)
    moreover have "Suc k \<le> length (u # us)" using k(1) by simp
    ultimately show ?thesis by blast
  qed
qed

lemma publish_rows_all:
  "rows_ok tx i (length us) \<Longrightarrow>
     publish_rows tx ev i us = (None, tx\<lparr>tx_published := tx_published tx @ map (\<lambda>u. (u, ev)) us\<rparr>)"
proof (induction us arbitrary: tx i)
  case Nil
  then show ?case by (simp add: rows_ok_def)
next
  case (Cons u us)
  have here: "tx_fault tx (RowsNext i) = None" "tx_fault tx (RowsScan i) = None"
    using Cons.prems unfolding rows_ok_def by (metis add.right_neutral le0 length_greater_0_conv list.distinct(1))+
  have "rows_ok (PublishEvent tx u ev) (Suc i) (length us)"
    using Cons.prems unfolding rows_ok_def
    by (metis PublishEvent_fields(3) Suc_le_mono Suc_less_eq add_Suc_shift length_Cons)
  from Cons.IH [OF this] here show ?case
    by (simp add: PublishEvent_def)
qed


subsection \<open>The steps of refreshDialValue\<close>

lemma selectDialValue_cases:
  "selectDialValue tx did = Inr v \<Longrightarrow> tx_fault tx SelectDialValue = None"
  "selectDialValue tx did = Inl ErrNoRows \<longleftrightarrow>
     tx_fault tx SelectDialValue = None \<and> filter (\<lambda>d. dial_ID d = did) (dials (tx_tables tx)) = []"
  by (auto simp: selectDialValue_def split: option.splits list.splits)

lemma selectAverage_Inr:
  "selectAverage tx did = Inr v \<longleftrightarrow>
     tx_fault tx SelectAverage = None \<and> v = average_value (tx_tables tx) did"
  by (auto simp: selectAverage_def split: option.splits)

lemma selectAverage_not_ErrNoRows: "selectAverage tx did \<noteq> Inl ErrNoRows"
  by (simp add: selectAverage_def split: option.splits)

lemma refreshDialValue_read:
  "selectDialValue tx did = Inr oldValue \<Longrightarrow> selectAverage tx did = Inr newValue \<Longrightarrow>
     refreshDialValue fe tx did = refresh_changed fe tx did oldValue newValue"
  by (simp add: refreshDialValue_def)

lemma refresh_changed_run:
  assumes "oldValue \<noteq> newValue"
    and "tx_fault tx UpdateDial = None" and "tx_fault tx InsertDialValue = None"
  shows "refresh_changed fe tx did oldValue newValue =
     (case publishDialEvent fe (tx\<lparr>tx_tables := persisted (tx_tables tx) did newValue (tx_now tx)\<rparr>)
             did (value_changed did newValue) of
        (Some err, tx3) \<Rightarrow> (Some (Errorf ''publish dial event'' err), tx3)
      | (None, tx3) \<Rightarrow> (None, tx3))"
  using assms
  by (simp add: refresh_changed_def updateDial_def insertDialValue_def persisted_def
      value_changed_def Let_def)

lemma publishDialEvent_all:
  assumes "tx_fault tx SelectMembers = None"
    and "rows_ok tx 0 (length (member_user_ids (tx_tables tx) did))"
  shows "publishDialEvent fe tx did ev =
     (None, tx\<lparr>tx_published := tx_published tx @
                 map (\<lambda>u. (u, ev)) (member_user_ids (tx_tables tx) did)\<rparr>)"
  using assms by (simp add: publishDialEvent_def publish_rows_all)

lemma publishDialEvent_tables:
  "tx_tables (snd (publishDialEvent fe tx did ev)) = tx_tables tx"
proof (cases "tx_fault tx SelectMembers")
  case None
  obtain k where "snd (publish_rows tx ev 0 (member_user_ids (tx_tables tx) did)) =
       tx\<lparr>tx_published := tx_published tx @
             map (\<lambda>u. (u, ev)) (take k (member_user_ids (tx_tables tx) did))\<rparr>"
    using publish_rows_prefix by blast
  with None show ?thesis by (simp add: publishDialEvent_def)
next
  case (Some msg)
  then show ?thesis by (simp add: publishDialEvent_def)
qed


lemma persisted_memberships [simp]:
  "dial_memberships (persisted t did v now) = dial_memberships t"
  by (simp add: persisted_def)

lemma rows_ok_tables [simp]: "rows_ok (tx\<lparr>tx_tables := t\<rparr>) i n = rows_ok tx i n"
  by (simp add: rows_ok_def)

lemma member_user_ids_persisted [simp]:
  "member_user_ids (persisted t did v now) did' = member_user_ids t did'"
  by (simp add: member_user_ids_def)

lemma member_values_persisted [simp]:
  "member_values (persisted t did v now) did' = member_values t did'"
  by (simp add: member_values_def)

lemma average_value_persisted [simp]:
  "average_value (persisted t did v now) did' = average_value t did'"
  by (simp add: average_value_def)

lemma length_member_ids: "length (member_user_ids t did) = length (member_values t did)"
  by (simp add: member_user_ids_def member_values_def)

subsection \<open>The transactions a recompute can end in\<close>

lemma persisted_updated:
  "persisted t did v now =
     (updated t did v now)\<lparr>dial_values := upsert_dial_value (dial_values t) did (Truncate now Minute) v\<rparr>"
  by (simp add: persisted_def updated_def)

lemma publishDialEvent_prefix:
  "\<exists>k. snd (publishDialEvent fe tx did ev) =
     tx\<lparr>tx_published := tx_published tx @ map (\<lambda>u. (u, ev)) (take k (member_user_ids (tx_tables tx) did))\<rparr>"
proof (cases "tx_fault tx SelectMembers")
  case None
  then show ?thesis
    using publish_rows_prefix [of "member_user_ids (tx_tables tx) did" tx ev 0]
    by (auto simp: publishDialEvent_def)
next
  case (Some msg)
  then have "snd (publishDialEvent fe tx did ev) =
     tx\<lparr>tx_published := tx_published tx @ map (\<lambda>u. (u, ev)) (take 0 (member_user_ids (tx_tables tx) did))\<rparr>"
    by (simp add: publishDialEvent_def)
  then show ?thesis by blast
qed

lemma refresh_changed_shapes:
  "snd (refresh_changed fe tx did oldValue newValue) = tx \<or>
   snd (refresh_changed fe tx did oldValue newValue) =
     tx\<lparr>tx_tables := updated (tx_tables tx) did newValue (tx_now tx)\<rparr> \<or>
   (\<exists>k. snd (refresh_changed fe tx did oldValue newValue) =
     tx\<lparr>tx_tables := persisted (tx_tables tx) did newValue (tx_now tx),
        tx_published := tx_published tx @
          map (\<lambda>u. (u, value_changed did newValue)) (take k (member_user_ids (tx_tables tx) did))\<rparr>)"
proof (cases "oldValue = newValue \<or> tx_fault tx UpdateDial \<noteq> None")
  case True
  then have "snd (refresh_changed fe tx did oldValue newValue) = tx"
    by (auto simp: refresh_changed_def updateDial_def)
  then show ?thesis by simp
next
  case False
  then have neq: "oldValue \<noteq> newValue" and upd: "tx_fault tx UpdateDial = None" by auto
  show ?thesis
  proof (cases "tx_fault tx InsertDialValue")
    case (Some msg)
    then have "snd (refresh_changed fe tx did oldValue newValue) =
        tx\<lparr>tx_tables := updated (tx_tables tx) did newValue (tx_now tx)\<rparr>"
      using neq upd
      by (simp add: refresh_changed_def updateDial_def insertDialValue_def updated_def Let_def)
    then show ?thesis by simp
  next
    case None
    let ?tx2 = "tx\<lparr>tx_tables := persisted (tx_tables tx) did newValue (tx_now tx)\<rparr>"
    obtain k where k: "snd (publishDialEvent fe ?tx2 did (value_changed did newValue)) =
      ?tx2\<lparr>tx_published := tx_published ?tx2 @ map (\<lambda>u. (u, value_changed did newValue))
          (take k (member_user_ids (tx_tables ?tx2) did))\<rparr>"
      using publishDialEvent_prefix by blast
    have "snd (refresh_changed fe tx did oldValue newValue) =
            snd (publishDialEvent fe ?tx2 did (value_changed did newValue))"
      using neq upd None by (simp add: refresh_changed_run split: prod.splits option.splits)
    with k show ?thesis by auto
  qed
qed

lemma refreshDialValue_shapes:
  "snd (refreshDialValue fe tx did) = tx \<or>
   (\<exists>newValue. snd (refreshDialValue fe tx did) =
     tx\<lparr>tx_tables := updated (tx_tables tx) did newValue (tx_now tx)\<rparr>) \<or>
   (\<exists>newValue k. snd (refreshDialValue fe tx did) =
     tx\<lparr>tx_tables := persisted (tx_tables tx) did newValue (tx_now tx),
        tx_published := tx_published tx @
          map (\<lambda>u. (u, value_changed did newValue)) (take k (member_user_ids (tx_tables tx) did))\<rparr>)"
proof (cases "selectDialValue tx did")
  case (Inl err)
  then show ?thesis by (simp add: refreshDialValue_def)
next
  case old: (Inr oldValue)
  show ?thesis
  proof (cases "selectAverage tx did")
    case (Inl err)
    then have "err \<noteq> ErrNoRows" using selectAverage_not_ErrNoRows [of tx did] by auto
    with old Inl show ?thesis by (simp add: refreshDialValue_def)
  next
    case (Inr newValue)
    with old have "refreshDialValue fe tx did = refresh_changed fe tx did oldValue newValue"
      by (rule refreshDialValue_read)
    with refresh_changed_shapes [of fe tx did oldValue newValue] show ?thesis
      by metis
  qed
qed

subsection \<open>The rows of other dials\<close>

lemma filter_other_dials:
  "filter (\<lambda>d. dial_ID d \<noteq> did)
     (map (\<lambda>d. if dial_ID d = did then d\<lparr>dial_Value := v, dial_UpdatedAt := now\<rparr> else d) ds) =
   filter (\<lambda>d. dial_ID d \<noteq> did) ds"
  by (induction ds) auto

lemma filter_other_values:
  "filter (\<lambda>r. dv_dial_id r \<noteq> did) (upsert_dial_value rows did ts v) =
   filter (\<lambda>r. dv_dial_id r \<noteq> did) rows"
proof -
  have "filter (\<lambda>r. dv_dial_id r \<noteq> did)
          (map (\<lambda>r. if dv_dial_id r = did \<and> dv_timestamp r = ts then r\<lparr>dv_value := v\<rparr> else r) rows) =
        filter (\<lambda>r. dv_dial_id r \<noteq> did) rows"
    by (induction rows) auto
  then show ?thesis by (simp add: upsert_dial_value_def)
qed

lemma insertDialValue_shapes:
  "snd (insertDialValue fe tx did v ts) = tx \<or>
   snd (insertDialValue fe tx did v ts) =
     tx\<lparr>tx_tables := (tx_tables tx)\<lparr>dial_values :=
           upsert_dial_value (dial_values (tx_tables tx)) did (Truncate ts Minute) v\<rparr>\<rparr>"
  by (simp add: insertDialValue_def Let_def split: option.splits)

lemma same_outside_refl: "same_outside did t t"
  by (simp add: same_outside_def)

lemma same_outside_updated: "same_outside did t (updated t did v now)"
  by (simp add: same_outside_def updated_def filter_other_dials)

lemma same_outside_persisted: "same_outside did t (persisted t did v now)"
  by (simp add: same_outside_def persisted_def filter_other_dials filter_other_values)

subsection \<open>After a recompute that succeeds\<close>

lemma filter_this_dial:
  "filter (\<lambda>d. dial_ID d = did)
     (map (\<lambda>d. if dial_ID d = did then d\<lparr>dial_Value := v, dial_UpdatedAt := now\<rparr> else d) ds) =
   map (\<lambda>d. d\<lparr>dial_Value := v, dial_UpdatedAt := now\<rparr>) (filter (\<lambda>d. dial_ID d = did) ds)"
  by (induction ds) auto

lemma dials_persisted:
  "filter (\<lambda>d. dial_ID d = did) (dials (persisted t did v now)) =
   map (\<lambda>d. d\<lparr>dial_Value := v, dial_UpdatedAt := now\<rparr>) (filter (\<lambda>d. dial_ID d = did) (dials t))"
  by (simp add: persisted_def filter_this_dial)

lemma settled_noop:
  assumes "dial_settled (tx_tables tx) did"
  shows "snd (refreshDialValue fe tx did) = tx"
proof (cases "selectDialValue tx did")
  case (Inl err)
  then show ?thesis by (simp add: refreshDialValue_def)
next
  case old: (Inr oldValue)
  then have v: "oldValue = average_value (tx_tables tx) did"
    using assms
    by (auto simp: selectDialValue_def dial_settled_def split: option.splits list.splits)
  show ?thesis
  proof (cases "selectAverage tx did")
    case (Inl err)
    then have "err \<noteq> ErrNoRows" using selectAverage_not_ErrNoRows [of tx did] by auto
    with old Inl show ?thesis by (simp add: refreshDialValue_def)
  next
    case (Inr newValue)
    then have "newValue = oldValue" using v by (simp add: selectAverage_Inr)
    with old Inr show ?thesis by (simp add: refreshDialValue_read refresh_changed_def)
  qed
qed

lemma refresh_tables_persisted:
  assumes "selectDialValue tx did = Inr oldValue" and "selectAverage tx did = Inr newValue"
    and "oldValue \<noteq> newValue"
    and "tx_fault tx UpdateDial = None" and "tx_fault tx InsertDialValue = None"
  shows "tx_tables (snd (refreshDialValue fe tx did)) =
           persisted (tx_tables tx) did newValue (tx_now tx)"
proof -
  let ?tx2 = "tx\<lparr>tx_tables := persisted (tx_tables tx) did newValue (tx_now tx)\<rparr>"
  have "snd (refreshDialValue fe tx did) =
          snd (publishDialEvent fe ?tx2 did (value_changed did newValue))"
    using assms
    by (simp add: refreshDialValue_read refresh_changed_run split: prod.splits option.splits)
  then show ?thesis by (simp add: publishDialEvent_tables)
qed

lemma refresh_success:
  assumes ok: "refreshDialValue fe tx did = (None, tx')"
  shows "tx_fault tx SelectDialValue = None"
    and "tx_fault tx' = tx_fault tx"
    and "dial_settled (tx_tables tx') did"
    and "filter (\<lambda>d. dial_ID d = did) (dials (tx_tables tx)) \<noteq> [] \<Longrightarrow>
           tx_fault tx SelectAverage = None \<and>
           selectDialValue tx' did = Inr (average_value (tx_tables tx) did) \<and>
           average_value (tx_tables tx') did = average_value (tx_tables tx) did"
proof -
  show f1: "tx_fault tx SelectDialValue = None"
    using ok by (auto simp: refreshDialValue_def selectDialValue_def split: option.splits)
  show f2: "tx_fault tx' = tx_fault tx"
    using refreshDialValue_shapes [of fe tx did] ok by auto
  have main: "dial_settled (tx_tables tx') did \<and>
      (filter (\<lambda>d. dial_ID d = did) (dials (tx_tables tx)) \<noteq> [] \<longrightarrow>
           tx_fault tx SelectAverage = None \<and>
           selectDialValue tx' did = Inr (average_value (tx_tables tx) did) \<and>
           average_value (tx_tables tx') did = average_value (tx_tables tx) did)"
  proof (cases "selectDialValue tx did")
    case (Inl err)
    with ok have "err = ErrNoRows" "tx' = tx"
      by (auto simp: refreshDialValue_def split: if_splits)
    with Inl show ?thesis
      by (simp add: selectDialValue_cases(2) dial_settled_def)
  next
    case old: (Inr oldValue)
    then obtain d ds where dds: "filter (\<lambda>d. dial_ID d = did) (dials (tx_tables tx)) = d # ds"
      and dv: "dial_Value d = oldValue"
      by (auto simp: selectDialValue_def split: option.splits list.splits)
    have avg: "selectAverage tx did = Inr (average_value (tx_tables tx) did)"
      and f3: "tx_fault tx SelectAverage = None"
      using ok old selectAverage_not_ErrNoRows [of tx did]
      by (auto simp: refreshDialValue_def selectAverage_def split: option.splits)
    show ?thesis
    proof (cases "oldValue = average_value (tx_tables tx) did")
      case True
      with ok old avg have "tx' = tx"
        by (simp add: refreshDialValue_read refresh_changed_def)
      with True old dds dv f3 show ?thesis
        by (simp add: dial_settled_def)
    next
      case False
      have upd: "tx_fault tx UpdateDial = None"
        using ok old avg False
        by (auto simp: refreshDialValue_read refresh_changed_def updateDial_def split: option.splits)
      have ins: "tx_fault tx InsertDialValue = None"
        using ok old avg False upd
        by (auto simp: refreshDialValue_read refresh_changed_def updateDial_def
            insertDialValue_def Let_def split: option.splits)
      have t: "tx_tables tx' = persisted (tx_tables tx) did (average_value (tx_tables tx) did) (tx_now tx)"
        using refresh_tables_persisted [OF old avg False upd ins, of fe] ok by simp
      have "selectDialValue tx' did = Inr (average_value (tx_tables tx) did)"
        using f1 f2 dds by (simp add: selectDialValue_def t dials_persisted)
      then show ?thesis
        using f3 dds by (simp add: dial_settled_def t dials_persisted)
    qed
  qed
  from main show "dial_settled (tx_tables tx') did" by simp
  from main show "filter (\<lambda>d. dial_ID d = did) (dials (tx_tables tx)) \<noteq> [] \<Longrightarrow>
           tx_fault tx SelectAverage = None \<and>
           selectDialValue tx' did = Inr (average_value (tx_tables tx) did) \<and>
           average_value (tx_tables tx') did = average_value (tx_tables tx) did" by simp
qed

subsection \<open>The upsert of the history\<close>

lemma upsert_keys:
  "map (\<lambda>r. (dv_dial_id r, dv_timestamp r)) (upsert_dial_value rows did ts v) =
     (if \<exists>r \<in> set rows. dv_dial_id r = did \<and> dv_timestamp r = ts
      then map (\<lambda>r. (dv_dial_id r, dv_timestamp r)) rows
      else map (\<lambda>r. (dv_dial_id r, dv_timestamp r)) rows @ [(did, ts)])"
  by (auto simp: upsert_dial_value_def)

lemma upsert_absent:
  "\<not> (\<exists>r \<in> set rows. dv_dial_id r = did \<and> dv_timestamp r = ts) \<Longrightarrow>
     upsert_dial_value rows did ts v = rows @ [\<lparr>dv_dial_id = did, dv_timestamp = ts, dv_value = v\<rparr>]"
  unfolding upsert_dial_value_def by (rule if_not_P)

lemma upsert_exists:
  "\<exists>r \<in> set rows. dv_dial_id r = did \<and> dv_timestamp r = ts \<Longrightarrow>
     upsert_dial_value rows did ts v =
       map (\<lambda>r. if dv_dial_id r = did \<and> dv_timestamp r = ts then r\<lparr>dv_value := v\<rparr> else r) rows"
  unfolding upsert_dial_value_def by (rule if_P)

lemma upsert_one_sample:
  "one_sample_per_bucket rows \<Longrightarrow> one_sample_per_bucket (upsert_dial_value rows did ts v)"
  unfolding one_sample_per_bucket_def upsert_keys by auto

lemma samples_at_overwrite:
  "distinct (map (\<lambda>r. (dv_dial_id r, dv_timestamp r)) rows) \<Longrightarrow>
   \<exists>r \<in> set rows. dv_dial_id r = did \<and> dv_timestamp r = ts \<Longrightarrow>
   samples_at (map (\<lambda>r. if dv_dial_id r = did \<and> dv_timestamp r = ts then r\<lparr>dv_value := v\<rparr> else r) rows) did ts =
     [\<lparr>dv_dial_id = did, dv_timestamp = ts, dv_value = v\<rparr>]"
proof (induction rows)
  case Nil
  then show ?case by simp
next
  case (Cons r rows)
  show ?case
  proof (cases "dv_dial_id r = did \<and> dv_timestamp r = ts")
    case True
    then have "\<forall>r' \<in> set rows. \<not> (dv_dial_id r' = did \<and> dv_timestamp r' = ts)"
      using Cons.prems(1) by (auto simp: image_iff)
    then have "samples_at (map (\<lambda>r. if dv_dial_id r = did \<and> dv_timestamp r = ts then r\<lparr>dv_value := v\<rparr> else r) rows) did ts = []"
      by (auto simp: samples_at_def filter_empty_conv)
    then show ?thesis using True by (simp add: samples_at_def)
  next
    case False
    then have "\<exists>r' \<in> set rows. dv_dial_id r' = did \<and> dv_timestamp r' = ts"
      using Cons.prems(2) by auto
    moreover have "distinct (map (\<lambda>r. (dv_dial_id r, dv_timestamp r)) rows)"
      using Cons.prems(1) by simp
    ultimately have "samples_at (map (\<lambda>r. if dv_dial_id r = did \<and> dv_timestamp r = ts then r\<lparr>dv_value := v\<rparr> else r) rows) did ts =
        [\<lparr>dv_dial_id = did, dv_timestamp = ts, dv_value = v\<rparr>]"
      using Cons.IH by blast
    then show ?thesis using False by (simp add: samples_at_def)
  qed
qed

lemma samples_at_upsert:
  assumes "one_sample_per_bucket rows"
  shows "samples_at (upsert_dial_value rows did ts v) did ts =
           [\<lparr>dv_dial_id = did, dv_timestamp = ts, dv_value = v\<rparr>]"
proof (cases "\<exists>r \<in> set rows. dv_dial_id r = did \<and> dv_timestamp r = ts")
  case True
  have "samples_at (map (\<lambda>r. if dv_dial_id r = did \<and> dv_timestamp r = ts then r\<lparr>dv_value := v\<rparr> else r) rows) did ts =
     [\<lparr>dv_dial_id = did, dv_timestamp = ts, dv_value = v\<rparr>]"
    using assms True unfolding one_sample_per_bucket_def by (rule samples_at_overwrite)
  then show ?thesis
    by (simp only: upsert_exists [OF True])
next
  case False
  then have "samples_at rows did ts = []"
    by (auto simp: samples_at_def filter_empty_conv)
  then show ?thesis
    by (simp add: upsert_absent [OF False] samples_at_def)
qed

lemma upsert_present:
  "\<exists>r \<in> set (upsert_dial_value rows did ts v). dv_dial_id r = did \<and> dv_timestamp r = ts \<and> dv_value r = v"
proof (cases "\<exists>r \<in> set rows. dv_dial_id r = did \<and> dv_timestamp r = ts")
  case True
  then obtain r where r: "r \<in> set rows" "dv_dial_id r = did" "dv_timestamp r = ts" by blast
  then have "r\<lparr>dv_value := v\<rparr> \<in> set (upsert_dial_value rows did ts v)"
    unfolding upsert_exists [OF True] by force
  moreover have "dv_dial_id (r\<lparr>dv_value := v\<rparr>) = did \<and> dv_timestamp (r\<lparr>dv_value := v\<rparr>) = ts \<and>
      dv_value (r\<lparr>dv_value := v\<rparr>) = v"
    using r by simp
  ultimately show ?thesis by blast
next
  case False
  show ?thesis by (simp add: upsert_absent [OF False])
qed

lemma upsert_length_present:
  "\<exists>r \<in> set rows. dv_dial_id r = did \<and> dv_timestamp r = ts \<Longrightarrow>
     length (upsert_dial_value rows did ts v) = length rows"
  by (simp add: upsert_exists)

lemma Truncate_Minute:
  "Truncate t Minute \<le> t" "t < Truncate t Minute + Minute" "Truncate t Minute mod Minute = 0"
  by (simp_all add: Truncate_def Minute_def minus_mod_eq_mult_div)

lemma insertDialValue_ok:
  "tx_fault tx InsertDialValue = None \<Longrightarrow>
     insertDialValue fe tx did v ts =
       (None, tx\<lparr>tx_tables := (tx_tables tx)\<lparr>dial_values :=
           upsert_dial_value (dial_values (tx_tables tx)) did (Truncate ts Minute) v\<rparr>\<rparr>)"
  by (simp add: insertDialValue_def Let_def)

subsection \<open>The rows of the recomputed dial\<close>

lemma dials_of_persisted:
  "dials (persisted t did v now) =
     map (\<lambda>d. if dial_ID d = did then d\<lparr>dial_Value := v, dial_UpdatedAt := now\<rparr> else d) (dials t)"
  by (simp add: persisted_def)

lemma values_of_persisted:
  "dial_values (persisted t did v now) = upsert_dial_value (dial_values t) did (Truncate now Minute) v"
  by (simp add: persisted_def)

lemma persisted_updated_at:
  assumes "d \<in> set (dials (persisted t did v now))" and "dial_ID d = did"
  shows "dial_UpdatedAt d = now"
proof -
  let ?f = "\<lambda>d. if dial_ID d = did then d\<lparr>dial_Value := v, dial_UpdatedAt := now\<rparr> else d"
  from assms(1) have "d \<in> ?f ` set (dials t)"
    unfolding dials_of_persisted by (simp only: set_map)
  then obtain d' where d': "d = ?f d'" by (rule imageE)
  show ?thesis
  proof (cases "dial_ID d' = did")
    case True
    with d' have "d = d'\<lparr>dial_Value := v, dial_UpdatedAt := now\<rparr>" by simp
    then show ?thesis by simp
  next
    case False
    with d' have "d = d'" by simp
    with False assms(2) show ?thesis by simp
  qed
qed

lemma persisted_has_dial:
  assumes "d0 \<in> set (dials t)" and "dial_ID d0 = did"
  shows "\<exists>d \<in> set (dials (persisted t did v now)). dial_ID d = did"
proof -
  let ?f = "\<lambda>d. if dial_ID d = did then d\<lparr>dial_Value := v, dial_UpdatedAt := now\<rparr> else d"
  have "?f d0 \<in> ?f ` set (dials t)" using assms(1) by (rule imageI)
  then have "?f d0 \<in> set (map ?f (dials t))" by (simp only: set_map)
  moreover have "dial_ID (?f d0) = did" using assms(2) by simp
  ultimately show ?thesis unfolding dials_of_persisted by blast
qed

lemma upsert_only_value:
  assumes "s \<in> set (upsert_dial_value rows did ts v)"
    and "dv_dial_id s = did" and "dv_timestamp s = ts"
  shows "dv_value s = v"
proof (cases "\<exists>r \<in> set rows. dv_dial_id r = did \<and> dv_timestamp r = ts")
  case True
  from assms(1) have "s \<in> (\<lambda>r. if dv_dial_id r = did \<and> dv_timestamp r = ts then r\<lparr>dv_value := v\<rparr> else r) ` set rows"
    unfolding upsert_exists [OF True] by (simp only: set_map)
  then obtain r where "r \<in> set rows"
    and s: "s = (if dv_dial_id r = did \<and> dv_timestamp r = ts then r\<lparr>dv_value := v\<rparr> else r)"
    by (rule imageE)
  show ?thesis
  proof (cases "dv_dial_id r = did \<and> dv_timestamp r = ts")
    case True
    with s show ?thesis by simp
  next
    case False
    with s have "s = r" by simp
    with False assms(2,3) show ?thesis by simp
  qed
next
  case False
  from assms(1) have "s \<in> set rows \<or> s = \<lparr>dv_dial_id = did, dv_timestamp = ts, dv_value = v\<rparr>"
    unfolding upsert_absent [OF False] by auto
  then show ?thesis
  proof
    assume "s \<in> set rows"
    with False assms(2,3) show ?thesis by blast
  next
    assume "s = \<lparr>dv_dial_id = did, dv_timestamp = ts, dv_value = v\<rparr>"
    then show ?thesis by simp
  qed
qed


text \<open>
  When the statement that records the history row fails, \<^verbatim>\<open>refreshDialValue\<close> returns
  with the \<^verbatim>\<open>UPDATE\<close> done in the transaction: undoing it is left to the rollback of
  the caller.
\<close>

lemma refresh_history_failure_keeps_update:
  assumes "selectDialValue tx did = Inr oldValue" and "selectAverage tx did = Inr newValue"
    and "oldValue \<noteq> newValue"
    and "tx_fault tx UpdateDial = None" and "tx_fault tx InsertDialValue = Some msg"
  shows "refreshDialValue fe tx did =
     (Some (Errorf ''insert historical value'' (fe (DriverError msg))),
      tx\<lparr>tx_tables := updated (tx_tables tx) did newValue (tx_now tx)\<rparr>)"
  using assms
  by (simp add: refreshDialValue_read refresh_changed_def updateDial_def insertDialValue_def
      updated_def Let_def)

subsection \<open>The functions on the example transaction\<close>

lemma example_average_1: "average_value example_tables 1 = 2"
  by code_simp

lemma example_average_2: "average_value example_tables 2 = 0"
  by code_simp

lemma example_average_3: "average_value example_tables 3 = 20"
  by code_simp

lemma failing_tx_fields [simp]:
  "tx_tables (failing_tx s msg) = example_tables"
  "tx_now (failing_tx s msg) = 90000000000"
  "tx_published (failing_tx s msg) = []"
  "tx_fault (failing_tx s msg) s' = (if s' = s then Some msg else None)"
  by (simp_all add: failing_tx_def example_tx_def)

lemma example_tx_fields [simp]:
  "tx_tables example_tx = example_tables"
  "tx_now example_tx = 90000000000"
  "tx_published example_tx = []"
  "tx_fault example_tx s' = None"
  by (simp_all add: example_tx_def)

lemma example_dial_1:
  "filter (\<lambda>d. dial_ID d = 1) (dials example_tables) =
     [\<lparr>dial_ID = 1, dial_UserID = 1, dial_Name = ''one'', dial_Value = 0,
       dial_InviteCode = ''a'', dial_CreatedAt = 0, dial_UpdatedAt = 0\<rparr>]"
  by (simp add: example_tables_def)

lemma example_dial_3:
  "filter (\<lambda>d. dial_ID d = 3) (dials example_tables) =
     [\<lparr>dial_ID = 3, dial_UserID = 2, dial_Name = ''three'', dial_Value = 20,
       dial_InviteCode = ''c'', dial_CreatedAt = 0, dial_UpdatedAt = 0\<rparr>]"
  by (simp add: example_tables_def)

lemma example_select_1: "selectDialValue example_tx 1 = Inr 0"
  by (simp add: selectDialValue_def example_dial_1)

lemma example_select_average_1: "selectAverage example_tx 1 = Inr 2"
  by (simp add: selectAverage_def example_average_1)

lemma example_select_3: "selectDialValue example_tx 3 = Inr 20"
  by (simp add: selectDialValue_def example_dial_3)

lemma example_select_average_3: "selectAverage example_tx 3 = Inr 20"
  by (simp add: selectAverage_def example_average_3)

lemma failing_select_1:
  "s \<noteq> SelectDialValue \<Longrightarrow> selectDialValue (failing_tx s msg) 1 = Inr 0"
  by (simp add: selectDialValue_def example_dial_1)

lemma failing_select_average_1:
  "s \<noteq> SelectAverage \<Longrightarrow> selectAverage (failing_tx s msg) 1 = Inr 2"
  by (simp add: selectAverage_def example_average_1)

lemma example_member_ids_1: "member_user_ids example_tables 1 = [1, 2]"
  by (simp add: member_user_ids_def example_tables_def)

lemma example_rows_ok: "rows_ok example_tx i n"
  by (simp add: rows_ok_def)

lemma example_refresh_3: "refreshDialValue fe example_tx 3 = (None, example_tx)"
  by (simp add: refreshDialValue_read [OF example_select_3 example_select_average_3]
      refresh_changed_def)

lemma example_refresh_1:
  "refreshDialValue fe example_tx 1 =
     (None, example_tx\<lparr>tx_tables := persisted example_tables 1 2 90000000000,
        tx_published := [(1, value_changed 1 2), (2, value_changed 1 2)]\<rparr>)"
proof -
  let ?tx2 = "example_tx\<lparr>tx_tables := persisted (tx_tables example_tx) 1 2 (tx_now example_tx)\<rparr>"
  have "refreshDialValue fe example_tx 1 = refresh_changed fe example_tx 1 0 2"
    using example_select_1 example_select_average_1 by (rule refreshDialValue_read)
  also have "\<dots> =
      (case publishDialEvent fe ?tx2 1 (value_changed 1 2) of
         (Some err, tx3) \<Rightarrow> (Some (Errorf ''publish dial event'' err), tx3)
       | (None, tx3) \<Rightarrow> (None, tx3))"
    by (rule refresh_changed_run) simp_all
  also have "publishDialEvent fe ?tx2 1 (value_changed 1 2) =
      (None, ?tx2\<lparr>tx_published := tx_published ?tx2 @
          map (\<lambda>u. (u, value_changed 1 2)) (member_user_ids (tx_tables ?tx2) 1)\<rparr>)"
    by (rule publishDialEvent_all) (simp_all add: example_rows_ok)
  finally show ?thesis
    by (simp add: example_member_ids_1)
qed

section \<open>The claims of the specification\<close>



text \<open>
  C2. A recompute that reads a stored value equal to the aggregate returns \<^verbatim>\<open>nil\<close> and
  leaves the transaction as it was: no row of \<^verbatim>\<open>dials\<close> is written, no history row is
  recorded, and nothing is published. After a recompute that returned \<^verbatim>\<open>nil\<close>, a second
  recompute of the same dial returns \<^verbatim>\<open>nil\<close> and changes nothing; it changes nothing
  either when the driver fails during the second call.
\<close>

theorem recompute_idempotent:
  "(selectDialValue tx did = Inr v \<and> selectAverage tx did = Inr v \<longrightarrow>
      refreshDialValue fe tx did = (None, tx)) \<and>
   (refreshDialValue fe tx did = (None, tx') \<longrightarrow>
      refreshDialValue fe tx' did = (None, tx') \<and>
      (\<forall>f. snd (refreshDialValue fe (tx'\<lparr>tx_fault := f\<rparr>) did) = tx'\<lparr>tx_fault := f\<rparr>))"
proof (intro conjI impI allI)
  assume "selectDialValue tx did = Inr v \<and> selectAverage tx did = Inr v"
  then show "refreshDialValue fe tx did = (None, tx)"
    by (simp add: refreshDialValue_read refresh_changed_def)
next
  assume ok: "refreshDialValue fe tx did = (None, tx')"
  note s = refresh_success [OF ok]
  have snd: "snd (refreshDialValue fe tx' did) = tx'"
    using s(3) by (rule settled_noop)
  have "fst (refreshDialValue fe tx' did) = None"
  proof (cases "filter (\<lambda>d. dial_ID d = did) (dials (tx_tables tx)) = []")
    case True
    then have "selectDialValue tx did = Inl ErrNoRows"
      using s(1) by (simp add: selectDialValue_cases(2))
    with ok have "tx' = tx" by (simp add: refreshDialValue_def)
    with ok show ?thesis by simp
  next
    case False
    from s(4) [OF False] have "selectDialValue tx' did = Inr (average_value (tx_tables tx') did)"
      and "selectAverage tx' did = Inr (average_value (tx_tables tx') did)"
      using s(2) by (simp_all add: selectAverage_def)
    then show ?thesis by (simp add: refreshDialValue_read refresh_changed_def)
  qed
  with snd show "refreshDialValue fe tx' did = (None, tx')"
    by (simp add: prod_eq_iff)
next
  fix f
  assume ok: "refreshDialValue fe tx did = (None, tx')"
  have "dial_settled (tx_tables (tx'\<lparr>tx_fault := f\<rparr>)) did"
    using refresh_success(3) [OF ok] by simp
  then show "snd (refreshDialValue fe (tx'\<lparr>tx_fault := f\<rparr>) did) = tx'\<lparr>tx_fault := f\<rparr>"
    by (rule settled_noop)
qed

theorem recompute_idempotent_witness:
  "selectDialValue example_tx 3 = Inr 20 \<and> selectAverage example_tx 3 = Inr 20 \<and>
   refreshDialValue plain_FormatError example_tx 3 = (None, example_tx) \<and>
   fst (refreshDialValue plain_FormatError example_tx 1) = None \<and>
   snd (refreshDialValue plain_FormatError example_tx 1) \<noteq> example_tx \<and>
   refreshDialValue plain_FormatError (snd (refreshDialValue plain_FormatError example_tx 1)) 1 =
     (None, snd (refreshDialValue plain_FormatError example_tx 1))"
proof -
  have ok: "fst (refreshDialValue plain_FormatError example_tx 1) = None"
    by (simp add: example_refresh_1)
  have run: "refreshDialValue plain_FormatError example_tx 1 =
      (None, snd (refreshDialValue plain_FormatError example_tx 1))"
    by (simp add: example_refresh_1)
  have "tx_published (snd (refreshDialValue plain_FormatError example_tx 1)) \<noteq>
      tx_published example_tx"
    by (simp add: example_refresh_1)
  then have changed: "snd (refreshDialValue plain_FormatError example_tx 1) \<noteq> example_tx"
    by auto
  from recompute_idempotent [of example_tx 3 20 plain_FormatError]
    recompute_idempotent [of example_tx 1 0 plain_FormatError
      "snd (refreshDialValue plain_FormatError example_tx 1)"]
  show ?thesis
    using run ok changed example_select_3 example_select_average_3 by simp
qed

text \<open>
  C3. For a dial identifier that no row of \<^verbatim>\<open>dials\<close> has, and a first query that the
  driver answers, the recompute returns \<^verbatim>\<open>nil\<close> and leaves the transaction as it was:
  no row is written, no history row is recorded, nothing is published.
\<close>

theorem refresh_missing_dial:
  assumes "tx_fault tx SelectDialValue = None"
    and "\<forall>d \<in> set (dials (tx_tables tx)). dial_ID d \<noteq> did"
  shows "refreshDialValue fe tx did = (None, tx)"
proof -
  have "filter (\<lambda>d. dial_ID d = did) (dials (tx_tables tx)) = []"
    using assms(2) by (simp add: filter_empty_conv)
  with assms(1) have "selectDialValue tx did = Inl ErrNoRows"
    by (simp add: selectDialValue_cases(2))
  then show ?thesis by (simp add: refreshDialValue_def)
qed

theorem refresh_missing_dial_witness:
  "tx_fault example_tx SelectDialValue = None \<and>
   filter (\<lambda>d. dial_ID d = 7) (dials (tx_tables example_tx)) = [] \<and>
   refreshDialValue plain_FormatError example_tx 7 = (None, example_tx)"
proof -
  have none: "\<forall>d \<in> set (dials (tx_tables example_tx)). dial_ID d \<noteq> 7"
    by (simp add: example_tables_def)
  have f: "tx_fault example_tx SelectDialValue = None" by simp
  from refresh_missing_dial [OF f none, of plain_FormatError] none f
  show ?thesis by (simp add: filter_empty_conv)
qed

text \<open>
  C4. \<^verbatim>\<open>insertDialValue\<close> stores a sample under the supplied timestamp truncated to the
  minute boundary that precedes it. When the history has at most one row per dial and
  timestamp, it still has after a sample is recorded; and after two samples are recorded
  for one dial at timestamps of the same minute, the history has exactly one row for that
  dial and minute, with the second value, and the second call has added no row.
\<close>

theorem history_one_sample_per_bucket:
  assumes inv: "one_sample_per_bucket (dial_values (tx_tables tx))"
    and ok: "tx_fault tx InsertDialValue = None"
    and bucket: "Truncate t1 Minute = Truncate t2 Minute"
    and first: "insertDialValue fe tx did v1 t1 = (r1, tx1)"
    and second: "insertDialValue fe tx1 did v2 t2 = (r2, tx2)"
  shows "r1 = None \<and> r2 = None \<and>
         Truncate t1 Minute \<le> t1 \<and> t1 < Truncate t1 Minute + Minute \<and>
         Truncate t1 Minute mod Minute = 0 \<and>
         one_sample_per_bucket (dial_values (tx_tables tx1)) \<and>
         one_sample_per_bucket (dial_values (tx_tables tx2)) \<and>
         samples_at (dial_values (tx_tables tx1)) did (Truncate t1 Minute) =
           [\<lparr>dv_dial_id = did, dv_timestamp = Truncate t1 Minute, dv_value = v1\<rparr>] \<and>
         samples_at (dial_values (tx_tables tx2)) did (Truncate t1 Minute) =
           [\<lparr>dv_dial_id = did, dv_timestamp = Truncate t1 Minute, dv_value = v2\<rparr>] \<and>
         length (dial_values (tx_tables tx2)) = length (dial_values (tx_tables tx1))"
proof -
  let ?b = "Truncate t1 Minute"
  let ?rows = "dial_values (tx_tables tx)"
  have r1: "r1 = None" and tx1: "tx1 = tx\<lparr>tx_tables := (tx_tables tx)\<lparr>dial_values :=
           upsert_dial_value ?rows did ?b v1\<rparr>\<rparr>"
    using first insertDialValue_ok [OF ok, of fe did v1 t1] by simp_all
  have ok1: "tx_fault tx1 InsertDialValue = None" using ok tx1 by simp
  have rows1: "dial_values (tx_tables tx1) = upsert_dial_value ?rows did ?b v1"
    using tx1 by simp
  have r2: "r2 = None" and tx2: "tx2 = tx1\<lparr>tx_tables := (tx_tables tx1)\<lparr>dial_values :=
           upsert_dial_value (dial_values (tx_tables tx1)) did ?b v2\<rparr>\<rparr>"
    using second insertDialValue_ok [OF ok1, of fe did v2 t2] bucket by simp_all
  have rows2: "dial_values (tx_tables tx2) = upsert_dial_value (dial_values (tx_tables tx1)) did ?b v2"
    using tx2 by simp
  have inv1: "one_sample_per_bucket (dial_values (tx_tables tx1))"
    unfolding rows1 using inv by (rule upsert_one_sample)
  have inv2: "one_sample_per_bucket (dial_values (tx_tables tx2))"
    unfolding rows2 using inv1 by (rule upsert_one_sample)
  have s1: "samples_at (dial_values (tx_tables tx1)) did ?b =
           [\<lparr>dv_dial_id = did, dv_timestamp = ?b, dv_value = v1\<rparr>]"
    unfolding rows1 using inv by (rule samples_at_upsert)
  have s2: "samples_at (dial_values (tx_tables tx2)) did ?b =
           [\<lparr>dv_dial_id = did, dv_timestamp = ?b, dv_value = v2\<rparr>]"
    unfolding rows2 using inv1 by (rule samples_at_upsert)
  have "\<exists>r \<in> set (dial_values (tx_tables tx1)). dv_dial_id r = did \<and> dv_timestamp r = ?b"
    unfolding rows1 using upsert_present [of ?rows did ?b v1] by blast
  then have len: "length (dial_values (tx_tables tx2)) = length (dial_values (tx_tables tx1))"
    unfolding rows2 by (rule upsert_length_present)
  show ?thesis
    using r1 r2 inv1 inv2 s1 s2 len Truncate_Minute [of t1] by simp
qed

theorem history_one_sample_per_bucket_witness:
  "one_sample_per_bucket (dial_values (tx_tables example_tx)) \<and>
   tx_fault example_tx InsertDialValue = None \<and>
   Truncate 61000000000 Minute = 60000000000 \<and>
   Truncate 119000000000 Minute = 60000000000 \<and>
   samples_at
     (dial_values (tx_tables (snd (insertDialValue plain_FormatError
        (snd (insertDialValue plain_FormatError example_tx 1 5 61000000000)) 1 7 119000000000))))
     1 60000000000 =
     [\<lparr>dv_dial_id = 1, dv_timestamp = 60000000000, dv_value = 7\<rparr>] \<and>
   length
     (dial_values (tx_tables (snd (insertDialValue plain_FormatError
        (snd (insertDialValue plain_FormatError example_tx 1 5 61000000000)) 1 7 119000000000)))) = 1"
proof -
  let ?tx1 = "snd (insertDialValue plain_FormatError example_tx 1 5 61000000000)"
  let ?tx2 = "snd (insertDialValue plain_FormatError ?tx1 1 7 119000000000)"
  have inv: "one_sample_per_bucket (dial_values (tx_tables example_tx))"
    by (simp add: one_sample_per_bucket_def example_tables_def)
  have f: "tx_fault example_tx InsertDialValue = None" by simp
  have t1: "Truncate 61000000000 Minute = 60000000000"
    and t2: "Truncate 119000000000 Minute = 60000000000"
    by (simp_all add: Truncate_def Minute_def)
  have b: "Truncate 61000000000 Minute = Truncate 119000000000 Minute"
    by (simp only: t1 t2)
  have first: "insertDialValue plain_FormatError example_tx 1 5 61000000000 =
      (fst (insertDialValue plain_FormatError example_tx 1 5 61000000000), ?tx1)"
    by simp
  have second: "insertDialValue plain_FormatError ?tx1 1 7 119000000000 =
      (fst (insertDialValue plain_FormatError ?tx1 1 7 119000000000), ?tx2)"
    by simp
  have len1: "length (dial_values (tx_tables ?tx1)) = 1"
    by (simp add: insertDialValue_ok [OF f] upsert_dial_value_def example_tables_def)
  from history_one_sample_per_bucket [OF inv f b first second] inv f t1 t2 len1
  show ?thesis by simp
qed

text \<open>
  C5. When the driver answers every call, a recompute that changes the value makes one
  call to the publisher for each membership row of the dial, in the order of the rows,
  addressed to the user of that row, with the value-changed event that carries the dial
  identifier and the new value; a recompute that finds the value unchanged makes no call.
\<close>

theorem fanout:
  assumes old: "selectDialValue tx did = Inr oldValue"
    and new: "selectAverage tx did = Inr newValue"
    and upd: "tx_fault tx UpdateDial = None" and ins: "tx_fault tx InsertDialValue = None"
    and sel: "tx_fault tx SelectMembers = None"
    and rows: "rows_ok tx 0 (length (member_user_ids (tx_tables tx) did))"
  shows "tx_published (snd (refreshDialValue fe tx did)) =
           tx_published tx @
           (if oldValue = newValue then []
            else map (\<lambda>m. (dm_user_id m, value_changed did newValue))
                   (filter (\<lambda>m. dm_dial_id m = did) (dial_memberships (tx_tables tx))))"
proof (cases "oldValue = newValue")
  case True
  then show ?thesis
    using old new by (simp add: refreshDialValue_read refresh_changed_def)
next
  case False
  let ?tx2 = "tx\<lparr>tx_tables := persisted (tx_tables tx) did newValue (tx_now tx)\<rparr>"
  have "publishDialEvent fe ?tx2 did (value_changed did newValue) =
     (None, ?tx2\<lparr>tx_published := tx_published ?tx2 @
                 map (\<lambda>u. (u, value_changed did newValue)) (member_user_ids (tx_tables ?tx2) did)\<rparr>)"
    by (rule publishDialEvent_all) (use sel rows in simp_all)
  then show ?thesis
    using False old new upd ins
    by (simp add: refreshDialValue_read refresh_changed_run member_user_ids_def comp_def)
qed

theorem fanout_witness:
  "selectDialValue example_tx 1 = Inr 0 \<and> selectAverage example_tx 1 = Inr 2 \<and>
   rows_ok example_tx 0 (length (member_user_ids (tx_tables example_tx) 1)) \<and>
   tx_published (snd (refreshDialValue plain_FormatError example_tx 1)) =
     [(1, value_changed 1 2), (2, value_changed 1 2)] \<and>
   selectDialValue example_tx 3 = Inr 20 \<and> selectAverage example_tx 3 = Inr 20 \<and>
   tx_published (snd (refreshDialValue plain_FormatError example_tx 3)) = []"
proof -
  have members: "filter (\<lambda>m. dm_dial_id m = 1) (dial_memberships example_tables) =
      [\<lparr>dm_dial_id = 1, dm_user_id = 1, dm_value = 1\<rparr>,
       \<lparr>dm_dial_id = 1, dm_user_id = 2, dm_value = 2\<rparr>]"
    by (simp add: example_tables_def)
  have f: "tx_fault example_tx UpdateDial = None" "tx_fault example_tx InsertDialValue = None"
    "tx_fault example_tx SelectMembers = None"
    by simp_all
  from fanout [OF example_select_1 example_select_average_1 f example_rows_ok, of plain_FormatError]
    fanout [OF example_select_3 example_select_average_3 f example_rows_ok, of plain_FormatError]
  show ?thesis
    using example_select_1 example_select_average_1 example_select_3 example_select_average_3
      example_rows_ok [of 0 "length (member_user_ids (tx_tables example_tx) 1)"]
    by (simp add: members)
qed




text \<open>
  C7. Run in a transaction that commits when the recompute returns \<^verbatim>\<open>nil\<close> and rolls back
  when it returns an error: a failure of the driver in the first query, in the aggregate
  query, in the \<^verbatim>\<open>UPDATE\<close> or in the statement that records the history row makes the
  recompute return the driver's error (passed through \<^verbatim>\<open>FormatError\<close>, and wrapped as
  \<^verbatim>\<open>insert historical value\<close> for the history row), and the committed tables are the
  tables from before: the dial row and the history are unchanged.
\<close>

theorem recompute_atomic:
  "(tx_fault tx SelectDialValue = Some msg \<longrightarrow>
      recomputeDialValue fe tx did = (Some (fe (DriverError msg)), tx_tables tx, tx_published tx)) \<and>
   (selectDialValue tx did = Inr oldValue \<and> tx_fault tx SelectAverage = Some msg \<longrightarrow>
      recomputeDialValue fe tx did = (Some (fe (DriverError msg)), tx_tables tx, tx_published tx)) \<and>
   (selectDialValue tx did = Inr oldValue \<and> selectAverage tx did = Inr newValue \<and>
    oldValue \<noteq> newValue \<and> tx_fault tx UpdateDial = Some msg \<longrightarrow>
      recomputeDialValue fe tx did = (Some (fe (DriverError msg)), tx_tables tx, tx_published tx)) \<and>
   (selectDialValue tx did = Inr oldValue \<and> selectAverage tx did = Inr newValue \<and>
    oldValue \<noteq> newValue \<and> tx_fault tx UpdateDial = None \<and> tx_fault tx InsertDialValue = Some msg \<longrightarrow>
      recomputeDialValue fe tx did =
        (Some (Errorf ''insert historical value'' (fe (DriverError msg))), tx_tables tx, tx_published tx))"
proof (intro conjI impI)
  assume "tx_fault tx SelectDialValue = Some msg"
  then show "recomputeDialValue fe tx did = (Some (fe (DriverError msg)), tx_tables tx, tx_published tx)"
    by (simp add: recomputeDialValue_def refreshDialValue_def selectDialValue_def)
next
  assume "selectDialValue tx did = Inr oldValue \<and> tx_fault tx SelectAverage = Some msg"
  then show "recomputeDialValue fe tx did = (Some (fe (DriverError msg)), tx_tables tx, tx_published tx)"
    by (simp add: recomputeDialValue_def refreshDialValue_def selectAverage_def)
next
  assume "selectDialValue tx did = Inr oldValue \<and> selectAverage tx did = Inr newValue \<and>
    oldValue \<noteq> newValue \<and> tx_fault tx UpdateDial = Some msg"
  then show "recomputeDialValue fe tx did = (Some (fe (DriverError msg)), tx_tables tx, tx_published tx)"
    by (simp add: recomputeDialValue_def refreshDialValue_read refresh_changed_def updateDial_def)
next
  assume "selectDialValue tx did = Inr oldValue \<and> selectAverage tx did = Inr newValue \<and>
    oldValue \<noteq> newValue \<and> tx_fault tx UpdateDial = None \<and> tx_fault tx InsertDialValue = Some msg"
  then show "recomputeDialValue fe tx did =
        (Some (Errorf ''insert historical value'' (fe (DriverError msg))), tx_tables tx, tx_published tx)"
    by (simp add: recomputeDialValue_def refreshDialValue_read refresh_changed_def updateDial_def
        insertDialValue_def Let_def)
qed

theorem recompute_atomic_witness:
  "recomputeDialValue plain_FormatError (failing_tx SelectDialValue ''busy'') 1 =
     (Some (DriverError ''busy''), example_tables, []) \<and>
   recomputeDialValue plain_FormatError (failing_tx SelectAverage ''busy'') 1 =
     (Some (DriverError ''busy''), example_tables, []) \<and>
   recomputeDialValue plain_FormatError (failing_tx UpdateDial ''busy'') 1 =
     (Some (DriverError ''busy''), example_tables, []) \<and>
   recomputeDialValue plain_FormatError (failing_tx InsertDialValue ''busy'') 1 =
     (Some (Errorf ''insert historical value'' (DriverError ''busy'')), example_tables, [])"
proof -
  from recompute_atomic [of "failing_tx SelectDialValue ''busy''" "''busy''" plain_FormatError 1 0 2]
    recompute_atomic [of "failing_tx SelectAverage ''busy''" "''busy''" plain_FormatError 1 0 2]
    recompute_atomic [of "failing_tx UpdateDial ''busy''" "''busy''" plain_FormatError 1 0 2]
    recompute_atomic [of "failing_tx InsertDialValue ''busy''" "''busy''" plain_FormatError 1 0 2]
  show ?thesis
    by (simp add: failing_select_1 failing_select_average_1 plain_FormatError_def)
qed

text \<open>
  C8. In a recompute that changes the value, the \<^verbatim>\<open>UPDATE\<close> and \<^verbatim>\<open>insertDialValue\<close> are
  given the one \<^verbatim>\<open>tx.now\<close> of the transaction: every row of the dial has \<^verbatim>\<open>updated_at\<close>
  equal to \<^verbatim>\<open>tx.now\<close>, and the history, which keeps the timestamp it is given truncated
  to the minute, has a sample of the dial in the minute of that very \<^verbatim>\<open>updated_at\<close>, with
  the new value. This holds whether or not the notification that follows succeeds.
\<close>

theorem one_timestamp_per_transaction:
  assumes old: "selectDialValue tx did = Inr oldValue"
    and new: "selectAverage tx did = Inr newValue"
    and changed: "oldValue \<noteq> newValue"
    and upd: "tx_fault tx UpdateDial = None" and ins: "tx_fault tx InsertDialValue = None"
    and run: "refreshDialValue fe tx did = (r, tx')"
  shows "(\<exists>d \<in> set (dials (tx_tables tx')). dial_ID d = did) \<and>
         (\<forall>d \<in> set (dials (tx_tables tx')). dial_ID d = did \<longrightarrow>
            dial_UpdatedAt d = tx_now tx \<and>
            samples_at (dial_values (tx_tables tx')) did (Truncate (dial_UpdatedAt d) Minute) \<noteq> [] \<and>
            (\<forall>s \<in> set (samples_at (dial_values (tx_tables tx')) did (Truncate (dial_UpdatedAt d) Minute)).
                dv_value s = newValue))"
proof -
  let ?b = "Truncate (tx_now tx) Minute"
  have t: "tx_tables tx' = persisted (tx_tables tx) did newValue (tx_now tx)"
    using refresh_tables_persisted [OF old new changed upd ins, of fe] run by simp
  obtain d0 ds where d0: "filter (\<lambda>d. dial_ID d = did) (dials (tx_tables tx)) = d0 # ds"
    using old by (auto simp: selectDialValue_def split: option.splits list.splits)
  then have "d0 \<in> set (filter (\<lambda>d. dial_ID d = did) (dials (tx_tables tx)))" by simp
  then have "d0 \<in> set (dials (tx_tables tx))" "dial_ID d0 = did" by simp_all
  then have ex: "\<exists>d \<in> set (dials (tx_tables tx')). dial_ID d = did"
    unfolding t by (rule persisted_has_dial)
  have some: "samples_at (dial_values (tx_tables tx')) did ?b \<noteq> []"
    unfolding t values_of_persisted samples_at_def filter_empty_conv
    using upsert_present [of "dial_values (tx_tables tx)" did ?b newValue]
    by blast
  have vals: "\<forall>s \<in> set (samples_at (dial_values (tx_tables tx')) did ?b). dv_value s = newValue"
  proof
    fix s assume "s \<in> set (samples_at (dial_values (tx_tables tx')) did ?b)"
    then have "s \<in> set (upsert_dial_value (dial_values (tx_tables tx)) did ?b newValue)"
      and "dv_dial_id s = did" and "dv_timestamp s = ?b"
      unfolding t values_of_persisted samples_at_def by simp_all
    then show "dv_value s = newValue" by (rule upsert_only_value)
  qed
  show ?thesis
  proof (intro conjI ballI impI)
    show "\<exists>d \<in> set (dials (tx_tables tx')). dial_ID d = did" by (rule ex)
  next
    fix d assume d: "d \<in> set (dials (tx_tables tx'))" "dial_ID d = did"
    then show at: "dial_UpdatedAt d = tx_now tx"
      unfolding t by (rule persisted_updated_at)
    show "samples_at (dial_values (tx_tables tx')) did (Truncate (dial_UpdatedAt d) Minute) \<noteq> []"
      unfolding at by (rule some)
    fix s assume "s \<in> set (samples_at (dial_values (tx_tables tx')) did (Truncate (dial_UpdatedAt d) Minute))"
    then show "dv_value s = newValue" using vals unfolding at by blast
  qed
qed

theorem one_timestamp_per_transaction_witness:
  "selectDialValue example_tx 1 = Inr 0 \<and> selectAverage example_tx 1 = Inr 2 \<and>
   tx_now example_tx = 90000000000 \<and>
   map dial_UpdatedAt
     (filter (\<lambda>d. dial_ID d = 1)
        (dials (tx_tables (snd (refreshDialValue plain_FormatError example_tx 1))))) =
     [90000000000] \<and>
   samples_at (dial_values (tx_tables (snd (refreshDialValue plain_FormatError example_tx 1))))
     1 (Truncate 90000000000 Minute) =
     [\<lparr>dv_dial_id = 1, dv_timestamp = 60000000000, dv_value = 2\<rparr>]"
proof -
  have f: "tx_fault example_tx UpdateDial = None" "tx_fault example_tx InsertDialValue = None"
    by simp_all
  have run: "refreshDialValue plain_FormatError example_tx 1 =
      (fst (refreshDialValue plain_FormatError example_tx 1),
       snd (refreshDialValue plain_FormatError example_tx 1))"
    by simp
  have t: "Truncate 90000000000 Minute = 60000000000"
    by (simp add: Truncate_def Minute_def)
  have rows: "filter (\<lambda>d. dial_ID d = 1) (dials (persisted example_tables 1 2 90000000000)) =
      [\<lparr>dial_ID = 1, dial_UserID = 1, dial_Name = ''one'', dial_Value = 2,
        dial_InviteCode = ''a'', dial_CreatedAt = 0, dial_UpdatedAt = 90000000000\<rparr>]"
    by (simp add: dials_persisted example_dial_1)
  have samples: "dial_values (persisted example_tables 1 2 90000000000) =
      [\<lparr>dv_dial_id = 1, dv_timestamp = 60000000000, dv_value = 2\<rparr>]"
    by (simp add: values_of_persisted t upsert_dial_value_def example_tables_def)
  from one_timestamp_per_transaction [OF example_select_1 example_select_average_1 _ f run]
  show ?thesis
    using example_select_1 example_select_average_1
    by (simp add: example_refresh_1 rows samples t samples_at_def)
qed

text \<open>
  C9. Whatever the driver does, \<^verbatim>\<open>refreshDialValue\<close> and \<^verbatim>\<open>insertDialValue\<close> leave the
  membership rows as they were, and so the rows of the other dials and the history of the
  other dials: they write at most the rows of the dial they are called for and its history
  rows. \<^verbatim>\<open>publishDialEvent\<close> writes no table at all.
\<close>

theorem pipeline_frame:
  "same_outside did (tx_tables tx) (tx_tables (snd (refreshDialValue fe tx did))) \<and>
   same_outside did (tx_tables tx) (tx_tables (snd (insertDialValue fe tx did v ts))) \<and>
   tx_tables (snd (publishDialEvent fe tx did ev)) = tx_tables tx"
proof (intro conjI)
  show "same_outside did (tx_tables tx) (tx_tables (snd (refreshDialValue fe tx did)))"
    using refreshDialValue_shapes [of fe tx did]
    by (auto simp: same_outside_refl same_outside_updated same_outside_persisted)
  show "same_outside did (tx_tables tx) (tx_tables (snd (insertDialValue fe tx did v ts)))"
    using insertDialValue_shapes [of fe tx did v ts]
    by (auto simp: same_outside_def filter_other_values)
  show "tx_tables (snd (publishDialEvent fe tx did ev)) = tx_tables tx"
    by (rule publishDialEvent_tables)
qed

theorem pipeline_frame_witness:
  "dial_memberships (tx_tables (snd (refreshDialValue plain_FormatError example_tx 1))) =
     dial_memberships example_tables \<and>
   filter (\<lambda>d. dial_ID d \<noteq> 1)
     (dials (tx_tables (snd (refreshDialValue plain_FormatError example_tx 1)))) =
     filter (\<lambda>d. dial_ID d \<noteq> 1) (dials example_tables) \<and>
   tx_tables (snd (refreshDialValue plain_FormatError example_tx 1)) \<noteq> example_tables"
proof -
  have "dial_values (tx_tables (snd (refreshDialValue plain_FormatError example_tx 1))) \<noteq>
      dial_values example_tables"
    by (simp add: example_refresh_1 values_of_persisted upsert_dial_value_def example_tables_def)
  then have "tx_tables (snd (refreshDialValue plain_FormatError example_tx 1)) \<noteq> example_tables"
    by auto
  with pipeline_frame [of 1 example_tx plain_FormatError]
  show ?thesis by (simp add: same_outside_def)
qed

text \<open>
  C10. With six different error codes in the table, and whatever order the loop of
  \<^verbatim>\<open>FromErrorStatusCode\<close> visits the table in: for a code of the table,
  \<^verbatim>\<open>FromErrorStatusCode(ErrorStatusCode(code))\<close> is the code; for any other code,
  \<^verbatim>\<open>ErrorStatusCode\<close> returns 500, which \<^verbatim>\<open>FromErrorStatusCode\<close> maps to
  \<^verbatim>\<open>EINTERNAL\<close>.
\<close>

theorem ErrorStatusCode_roundtrip:
  assumes keys: "distinct (map fst (codes w))" and ord: "range_order w entries"
  shows "(code \<in> fst ` set (codes w) \<longrightarrow>
            FromErrorStatusCode w entries (ErrorStatusCode w code) = code) \<and>
         (code \<notin> fst ` set (codes w) \<longrightarrow>
            ErrorStatusCode w code = 500 \<and>
            FromErrorStatusCode w entries 500 = EINTERNAL w)"
proof (intro conjI impI)
  assume "code \<in> fst ` set (codes w)"
  then obtain v where kv: "(code, v) \<in> set (codes w)" by auto
  with keys have "map_of (codes w) code = Some v" by simp
  then have "ErrorStatusCode w code = v" by (simp add: ErrorStatusCode_def)
  moreover have "first_key_of entries v = Some code"
    using first_key_of_unique [OF range_order_distinct [OF ord]] kv range_order_set [OF ord]
    by simp
  ultimately show "FromErrorStatusCode w entries (ErrorStatusCode w code) = code"
    by (simp add: FromErrorStatusCode_def)
next
  assume "code \<notin> fst ` set (codes w)"
  then have "map_of (codes w) code = None" by (simp add: map_of_eq_None_iff)
  then show "ErrorStatusCode w code = 500"
    by (simp add: ErrorStatusCode_def StatusInternalServerError_def)
next
  have "(EINTERNAL w, 500) \<in> set (codes w)"
    by (simp add: codes_def StatusInternalServerError_def)
  then have "first_key_of entries 500 = Some (EINTERNAL w)"
    using first_key_of_unique [OF range_order_distinct [OF ord]] range_order_set [OF ord]
    by simp
  then show "FromErrorStatusCode w entries 500 = EINTERNAL w"
    by (simp add: FromErrorStatusCode_def)
qed

theorem ErrorStatusCode_roundtrip_witness:
  "distinct (map fst (codes sample_codes)) \<and>
   range_order sample_codes (rev (codes sample_codes)) \<and>
   ErrorStatusCode sample_codes ''not_found'' = 404 \<and>
   FromErrorStatusCode sample_codes (rev (codes sample_codes))
     (ErrorStatusCode sample_codes ''not_found'') = ''not_found'' \<and>
   ErrorStatusCode sample_codes ''teapot'' = 500 \<and>
   FromErrorStatusCode sample_codes (rev (codes sample_codes)) 500 = ''internal''"
proof -
  have d: "distinct (map fst (codes sample_codes))"
    by (simp add: codes_def sample_codes_def)
  have r: "range_order sample_codes (rev (codes sample_codes))"
    by (simp add: range_order_def)
  have c: "ErrorStatusCode sample_codes ''not_found'' = 404"
    by (simp add: ErrorStatusCode_def codes_def sample_codes_def StatusNotFound_def)
  from ErrorStatusCode_roundtrip [OF d r, of "''not_found''"]
    ErrorStatusCode_roundtrip [OF d r, of "''teapot''"]
  show ?thesis
    using d r c by (simp add: codes_def sample_codes_def)
qed

end
